theory Spec2Isabelle
  imports Complex_Main "HOL-Library.Log_Nat"
begin

text \<open>
  The storefront page \<^verbatim>\<open>app/page.tsx\<close>: the cart and its updaters, the two effects that
  mirror the cart in \<^verbatim>\<open>localStorage\<close>, the memo that derives the visible products from the
  catalog, and the catalog fetch with its fallback. Definitions come first, each after the
  source expression it models; the lemmas and the theorems about them follow.
\<close>

section \<open>JavaScript numbers\<close>

text \<open>
  A JavaScript \<open>number\<close> is an IEEE 754 double. The model has \<open>NaN\<close> and the finite doubles,
  each as the rational it denotes, and rounds the exact result of an arithmetic operator
  on finite operands to the nearest double, ties to even, with a 53 bit significand. The
  infinities, the sign of zero, overflow and the subnormal range are outside the model.
\<close>

datatype number = NaN | Finite rat

definition round_even :: "rat \<Rightarrow> int" where
  "round_even m =
     (let f = \<lfloor>m\<rfloor>; r = m - of_int f
      in if r < 1 / 2 then f else if 1 / 2 < r then f + 1 else if even f then f else f + 1)"

text \<open>The binary exponent \<open>e\<close> of a positive rational \<open>y\<close>: \<open>2 powi e \<le> y < 2 powi (e + 1)\<close>.\<close>

definition exponent :: "rat \<Rightarrow> int" where
  "exponent y =
     (let (p, q) = quotient_of y; e0 = bitlen p - bitlen q
      in if 2 powi e0 \<le> y then e0 else e0 - 1)"

text \<open>The double nearest to a rational; a decimal literal of the source denotes this value.\<close>

definition double :: "rat \<Rightarrow> rat" where
  "double x =
     (if x = 0 then 0
      else let ulp = 2 powi (exponent \<bar>x\<bar> - 52)
           in of_int (round_even (x / ulp)) * ulp)"

text \<open>The operators \<^verbatim>\<open>+\<close>, \<^verbatim>\<open>-\<close> and \<^verbatim>\<open>*\<close> on numbers: \<open>NaN\<close> when an operand is \<open>NaN\<close>.\<close>

fun js_add :: "number \<Rightarrow> number \<Rightarrow> number" where
  "js_add (Finite a) (Finite b) = Finite (double (a + b))"
| "js_add a b = NaN"

fun js_sub :: "number \<Rightarrow> number \<Rightarrow> number" where
  "js_sub (Finite a) (Finite b) = Finite (double (a - b))"
| "js_sub a b = NaN"

fun js_mul :: "number \<Rightarrow> number \<Rightarrow> number" where
  "js_mul (Finite a) (Finite b) = Finite (double (a * b))"
| "js_mul a b = NaN"

text \<open>The comparisons \<^verbatim>\<open>a > b\<close> and \<^verbatim>\<open>a <= b\<close>: false when an operand is \<open>NaN\<close>.\<close>

fun js_gt :: "number \<Rightarrow> number \<Rightarrow> bool" where
  "js_gt (Finite a) (Finite b) = (b < a)"
| "js_gt a b = False"

fun js_le :: "number \<Rightarrow> number \<Rightarrow> bool" where
  "js_le (Finite a) (Finite b) = (a \<le> b)"
| "js_le a b = False"

text \<open>The rational that a finite number denotes; the value at \<open>NaN\<close> is never used.\<close>

fun finite_value :: "number \<Rightarrow> rat" where
  "finite_value (Finite r) = r"
| "finite_value NaN = 0"


section \<open>Types of the page\<close>

text \<open>
  \<^verbatim>\<open>interface Product\<close> and \<^verbatim>\<open>interface CartItem\<close>. An optional field is an \<open>option\<close>.
  The fields \<^verbatim>\<open>id\<close> and \<^verbatim>\<open>image\<close> carry a suffix, since HOL has constants of these names.
\<close>

record rating =
  rate :: number
  count :: number

record product =
  id_p :: string
  title :: string
  description :: string
  price :: number
  image_p :: "string option"
  category :: "string option"
  rating :: "rating option"

record CartItem =
  product :: product
  quantity :: number

datatype sortBy = Featured | Price_asc | Price_desc | Rating

definition SAMPLE_PRODUCTS :: "product list" where
  "SAMPLE_PRODUCTS =
    [\<lparr>id_p = ''p1'', title = ''Minimal Leather Wallet'',
      description = ''Handcrafted full-grain leather wallet with RFID protection.'',
      price = Finite 49, image_p = Some ''/products/wallet.jpg'', category = Some ''Accessories'',
      rating = Some \<lparr>rate = Finite (double (46 / 10)), count = Finite 132\<rparr>\<rparr>,
     \<lparr>id_p = ''p2'', title = ''Cotton Crew T-Shirt'',
      description = ''Soft, breathable cotton tee with modern fit.'',
      price = Finite (double (1999 / 100)), image_p = Some ''/products/tshirt.jpg'',
      category = Some ''Clothing'',
      rating = Some \<lparr>rate = Finite (double (43 / 10)), count = Finite 210\<rparr>\<rparr>,
     \<lparr>id_p = ''p3'', title = ''Wireless Headphones'',
      description = ''Noise-cancelling over-ear headphones with 30h battery.'',
      price = Finite 129, image_p = Some ''/products/headphones.jpg'', category = Some ''Electronics'',
      rating = Some \<lparr>rate = Finite (double (47 / 10)), count = Finite 540\<rparr>\<rparr>,
     \<lparr>id_p = ''p4'', title = ''Ceramic Coffee Mug'',
      description = ''350ml mug, dishwasher safe with matte finish.'',
      price = Finite (double (125 / 10)), image_p = Some ''/products/mug.jpg'', category = Some ''Home'',
      rating = Some \<lparr>rate = Finite (double (45 / 10)), count = Finite 88\<rparr>\<rparr>]"


section \<open>The cart\<close>

text \<open>
  \<^verbatim>\<open>const subtotal = cart.reduce((sum, item) => sum + item.product.price * item.quantity, 0)\<close>
  in \<^verbatim>\<open>CartDrawer\<close>.
\<close>

definition Subtotal :: "CartItem list \<Rightarrow> number" where
  "Subtotal cart =
     foldl (\<lambda>sum item. js_add sum (js_mul (price (product item)) (quantity item))) (Finite 0) cart"

text \<open>\<^verbatim>\<open>Array.prototype.findIndex\<close>: the index of the first match, \<open>-1\<close> when there is none.\<close>

fun findIndex :: "('a \<Rightarrow> bool) \<Rightarrow> 'a list \<Rightarrow> int" where
  "findIndex P [] = - 1"
| "findIndex P (x # xs) =
     (if P x then 0 else let i = findIndex P xs in if i < 0 then - 1 else i + 1)"

text \<open>
  The updater that \<^verbatim>\<open>handleAddToCart(product, qty = 1)\<close> passes to \<^verbatim>\<open>setCart\<close>. A call
  without the second argument is \<open>None\<close> and takes the default.
\<close>

definition add_to_cart :: "product \<Rightarrow> number option \<Rightarrow> CartItem list \<Rightarrow> CartItem list" where
  "add_to_cart p qty_arg prev =
     (let qty = (case qty_arg of None \<Rightarrow> Finite 1 | Some n \<Rightarrow> n);
          idx = findIndex (\<lambda>it. id_p (product it) = id_p p) prev
      in if 0 \<le> idx
         then prev[nat idx := (prev ! nat idx)\<lparr>quantity := js_add (quantity (prev ! nat idx)) qty\<rparr>]
         else prev @ [\<lparr>product = p, quantity = qty\<rparr>])"

text \<open>The updater of \<^verbatim>\<open>handleUpdateQty(productId, quantity)\<close>: a map, then a filter.\<close>

definition update_qty :: "string \<Rightarrow> number \<Rightarrow> CartItem list \<Rightarrow> CartItem list" where
  "update_qty productId qty prev =
     filter (\<lambda>it. js_gt (quantity it) (Finite 0))
       (map (\<lambda>it. if id_p (product it) = productId then it\<lparr>quantity := qty\<rparr> else it) prev)"

text \<open>The updater of \<^verbatim>\<open>handleRemove(productId)\<close>.\<close>

definition remove_item :: "string \<Rightarrow> CartItem list \<Rightarrow> CartItem list" where
  "remove_item productId prev = filter (\<lambda>it. id_p (product it) \<noteq> productId) prev"


text \<open>The invariant of the cart: at most one item for each product identifier.\<close>

definition cart_inv :: "CartItem list \<Rightarrow> bool" where
  "cart_inv c = distinct (map (\<lambda>it. id_p (product it)) c)"


section \<open>The page state, its handlers and its effects\<close>

text \<open>
  The part of the state of \<^verbatim>\<open>Page\<close> that the cart code reads and writes, together with the
  \<^verbatim>\<open>localStorage\<close> slot \<^verbatim>\<open>ecom_cart_v1\<close> (\<open>None\<close> when the key is absent).
\<close>

record state =
  cart :: "CartItem list"
  isCartOpen :: bool
  storage :: "string option"

definition handleAddToCart :: "product \<Rightarrow> number option \<Rightarrow> state \<Rightarrow> state" where
  "handleAddToCart p qty st = st\<lparr>cart := add_to_cart p qty (cart st), isCartOpen := True\<rparr>"

definition handleUpdateQty :: "string \<Rightarrow> number \<Rightarrow> state \<Rightarrow> state" where
  "handleUpdateQty productId qty st = st\<lparr>cart := update_qty productId qty (cart st)\<rparr>"

definition handleRemove :: "string \<Rightarrow> state \<Rightarrow> state" where
  "handleRemove productId st = st\<lparr>cart := remove_item productId (cart st)\<rparr>"

definition handleClearCart :: "state \<Rightarrow> state" where
  "handleClearCart st = st\<lparr>cart := []\<rparr>"

text \<open>
  The effect that loads the cart. \<^verbatim>\<open>JSON.parse\<close> is a parameter: \<open>None\<close> when it throws,
  otherwise the parsed value, which the source casts to \<^verbatim>\<open>CartItem[]\<close> without a check.
  \<open>readable\<close> is false when \<^verbatim>\<open>localStorage.getItem\<close> throws. The result is the argument of
  \<^verbatim>\<open>setCart\<close>, or \<open>None\<close> when \<^verbatim>\<open>setCart\<close> is not called: the \<^verbatim>\<open>try\<close> block swallows every
  exception, and an absent key or an empty string fails the test \<^verbatim>\<open>if (raw)\<close>.
\<close>

definition load_cart ::
  "(string \<Rightarrow> CartItem list option) \<Rightarrow> bool \<Rightarrow> string option \<Rightarrow> CartItem list option" where
  "load_cart JSON_parse readable slot =
     (if \<not> readable then None
      else case slot of
             None \<Rightarrow> None
           | Some raw \<Rightarrow> if raw = [] then None else JSON_parse raw)"

text \<open>
  The effect that persists the cart, run after every render in which \<^verbatim>\<open>cart\<close> is a new
  array. \<open>writable\<close> is false when \<^verbatim>\<open>localStorage.setItem\<close> throws; the exception is ignored.
\<close>

definition persist_cart :: "(CartItem list \<Rightarrow> string) \<Rightarrow> bool \<Rightarrow> state \<Rightarrow> state" where
  "persist_cart JSON_stringify writable st =
     (if writable then st\<lparr>storage := Some (JSON_stringify (cart st))\<rparr> else st)"

text \<open>
  Mounting the page. The first render has the empty cart of \<^verbatim>\<open>useState<CartItem[]>([])\<close>.
  The effects run in source order: the load effect reads the slot and schedules
  \<^verbatim>\<open>setCart(parsed)\<close>, then the persist effect writes the empty cart. When \<^verbatim>\<open>setCart\<close> was
  called the page renders again with the parsed cart and the persist effect runs again.
\<close>

definition mount ::
  "(string \<Rightarrow> CartItem list option) \<Rightarrow> (CartItem list \<Rightarrow> string) \<Rightarrow>
     bool \<Rightarrow> bool \<Rightarrow> bool \<Rightarrow> string option \<Rightarrow> state" where
  "mount JSON_parse JSON_stringify readable writable1 writable2 slot =
     (let st0 = \<lparr>cart = [], isCartOpen = False, storage = slot\<rparr>;
          loaded = load_cart JSON_parse readable slot;
          st1 = persist_cart JSON_stringify writable1 st0
      in case loaded of
           None \<Rightarrow> st1
         | Some parsed \<Rightarrow> persist_cart JSON_stringify writable2 (st1\<lparr>cart := parsed\<rparr>))"

text \<open>A user action on the cart, and the step it causes: the handler, then the persist effect.\<close>

datatype action =
  Add product "number option"
| UpdateQuantity string number
| Remove string
| Clear

fun handle :: "action \<Rightarrow> state \<Rightarrow> state" where
  "handle (Add p qty) st = handleAddToCart p qty st"
| "handle (UpdateQuantity productId qty) st = handleUpdateQty productId qty st"
| "handle (Remove productId) st = handleRemove productId st"
| "handle Clear st = handleClearCart st"

definition step :: "(CartItem list \<Rightarrow> string) \<Rightarrow> state \<Rightarrow> action \<times> bool \<Rightarrow> state" where
  "step JSON_stringify st aw = persist_cart JSON_stringify (snd aw) (handle (fst aw) st)"

definition run :: "(CartItem list \<Rightarrow> string) \<Rightarrow> (action \<times> bool) list \<Rightarrow> state \<Rightarrow> state" where
  "run JSON_stringify aws st = foldl (step JSON_stringify) st aws"

text \<open>The cart updater of an action alone, with no state around it.\<close>

fun updater :: "action \<Rightarrow> CartItem list \<Rightarrow> CartItem list" where
  "updater (Add p qty) c = add_to_cart p qty c"
| "updater (UpdateQuantity productId qty) c = update_qty productId qty c"
| "updater (Remove productId) c = remove_item productId c"
| "updater Clear c = []"


section \<open>Strings\<close>

text \<open>
  A \<open>string\<close> stands for a JavaScript string whose code units are below 256 (Latin-1).
  \<^verbatim>\<open>String.prototype.trim\<close> strips white space and line terminators from both ends; below
  256 these are the code units 9 to 13, 32 and 160.
\<close>

definition is_space :: "char \<Rightarrow> bool" where
  "is_space c = (let n = (of_char c :: nat) in (9 \<le> n \<and> n \<le> 13) \<or> n = 32 \<or> n = 160)"

definition trim :: "string \<Rightarrow> string" where
  "trim s = rev (dropWhile is_space (rev (dropWhile is_space s)))"

text \<open>
  \<^verbatim>\<open>String.prototype.toLowerCase\<close>: below 256 the upper case letters are \<open>A\<close> to \<open>Z\<close> and the
  code units 192 to 222 except the multiplication sign 215; each is 32 below its lower
  case letter.
\<close>

definition lower_char :: "char \<Rightarrow> char" where
  "lower_char c =
     (let n = (of_char c :: nat)
      in if (65 \<le> n \<and> n \<le> 90) \<or> (192 \<le> n \<and> n \<le> 222 \<and> n \<noteq> 215) then char_of (n + 32) else c)"

definition toLowerCase :: "string \<Rightarrow> string" where
  "toLowerCase s = map lower_char s"

text \<open>
  \<^verbatim>\<open>s.startsWith(q)\<close> and \<^verbatim>\<open>s.includes(q)\<close>: \<open>q\<close> occurs in \<open>s\<close> as a contiguous run.
  (\<open>includes\<close> is a keyword of Isabelle, hence the suffix.)
\<close>

fun startsWith :: "string \<Rightarrow> string \<Rightarrow> bool" where
  "startsWith s [] = True"
| "startsWith [] (c # q) = False"
| "startsWith (x # s) (c # q) = (x = c \<and> startsWith s q)"

fun includes_str :: "string \<Rightarrow> string \<Rightarrow> bool" where
  "includes_str [] q = (q = [])"
| "includes_str (x # s) q = (startsWith (x # s) q \<or> includes_str s q)"


section \<open>Sorting\<close>

text \<open>
  \<^verbatim>\<open>Array.prototype.sort(comparefn)\<close> is a stable sort (ECMAScript 2019): \<open>a\<close> stays before
  \<open>b\<close> unless \<open>comparefn(a, b) > 0\<close>, and a result \<open>NaN\<close> of the comparator counts as 0. For
  a consistent comparator every stable sort returns the same array; the model is the
  insertion sort. For a comparator that is not consistent, which a \<open>NaN\<close> operand makes of
  a difference, ECMAScript leaves the order to the engine; the model then gives the order
  of the insertion sort.
\<close>

fun insert_by :: "('a \<Rightarrow> 'a \<Rightarrow> number) \<Rightarrow> 'a \<Rightarrow> 'a list \<Rightarrow> 'a list" where
  "insert_by cmp x [] = [x]"
| "insert_by cmp x (y # ys) =
     (if js_gt (cmp x y) (Finite 0) then y # insert_by cmp x ys else x # y # ys)"

definition js_sort :: "('a \<Rightarrow> 'a \<Rightarrow> number) \<Rightarrow> 'a list \<Rightarrow> 'a list" where
  "js_sort cmp xs = foldr (insert_by cmp) xs []"


section \<open>The visible products\<close>

text \<open>\<^verbatim>\<open>p.rating?.rate ?? 0\<close>\<close>

definition rate_or_0 :: "product \<Rightarrow> number" where
  "rate_or_0 p = (case rating p of None \<Rightarrow> Finite 0 | Some r \<Rightarrow> rate r)"

text \<open>The test of the search filter, for the lower-cased search string \<open>q\<close>.\<close>

definition matches :: "string \<Rightarrow> product \<Rightarrow> bool" where
  "matches q p \<longleftrightarrow> includes_str (toLowerCase (title p)) q \<or> includes_str (toLowerCase (description p)) q"

text \<open>The three comparators of \<^verbatim>\<open>visibleProducts\<close>.\<close>

definition by_price_asc :: "product \<Rightarrow> product \<Rightarrow> number" where
  "by_price_asc a b = js_sub (price a) (price b)"

definition by_price_desc :: "product \<Rightarrow> product \<Rightarrow> number" where
  "by_price_desc a b = js_sub (price b) (price a)"

definition by_rating :: "product \<Rightarrow> product \<Rightarrow> number" where
  "by_rating a b = js_sub (rate_or_0 b) (rate_or_0 a)"

text \<open>
  The value of the memo \<^verbatim>\<open>visibleProducts\<close>, as a function of \<^verbatim>\<open>products\<close>, \<^verbatim>\<open>search\<close>,
  \<^verbatim>\<open>category\<close> and \<^verbatim>\<open>sortBy\<close>. The search filter runs when \<^verbatim>\<open>search.trim()\<close> is not empty,
  and compares with \<^verbatim>\<open>search.toLowerCase()\<close>, which is not trimmed.
\<close>

definition visibleProducts :: "product list \<Rightarrow> string \<Rightarrow> string \<Rightarrow> sortBy \<Rightarrow> product list" where
  "visibleProducts products search cat sort_by =
     (let list = products;
          list = (if trim search \<noteq> [] then filter (matches (toLowerCase search)) list else list);
          list = (if cat \<noteq> ''All'' then filter (\<lambda>p. category p = Some cat) list else list)
      in case sort_by of
           Price_asc \<Rightarrow> js_sort by_price_asc list
         | Price_desc \<Rightarrow> js_sort by_price_desc list
         | Rating \<Rightarrow> js_sort by_rating list
         | Featured \<Rightarrow> list)"

text \<open>
  The same computation on a store of arrays, to tell a fresh array from one sorted in
  place. An address is an index into the store. \<^verbatim>\<open>slice\<close> and \<^verbatim>\<open>filter\<close> allocate a new
  array; \<^verbatim>\<open>sort\<close> overwrites the array it is called on.
\<close>

type_synonym heap = "product list list"

definition slice :: "nat \<Rightarrow> heap \<Rightarrow> nat \<times> heap" where
  "slice a h = (length h, h @ [h ! a])"

definition filter_array :: "(product \<Rightarrow> bool) \<Rightarrow> nat \<Rightarrow> heap \<Rightarrow> nat \<times> heap" where
  "filter_array P a h = (length h, h @ [filter P (h ! a)])"

definition sort_array :: "(product \<Rightarrow> product \<Rightarrow> number) \<Rightarrow> nat \<Rightarrow> heap \<Rightarrow> heap" where
  "sort_array cmp a h = h[a := js_sort cmp (h ! a)]"

definition visibleProducts_heap ::
  "nat \<Rightarrow> string \<Rightarrow> string \<Rightarrow> sortBy \<Rightarrow> heap \<Rightarrow> nat \<times> heap" where
  "visibleProducts_heap products search cat sort_by h =
     (let (list, h) = slice products h;
          (list, h) = (if trim search \<noteq> []
                       then filter_array (matches (toLowerCase search)) list h else (list, h));
          (list, h) = (if cat \<noteq> ''All''
                       then filter_array (\<lambda>p. category p = Some cat) list h else (list, h));
          h = (case sort_by of
                 Price_asc \<Rightarrow> sort_array by_price_asc list h
               | Price_desc \<Rightarrow> sort_array by_price_desc list h
               | Rating \<Rightarrow> sort_array by_rating list h
               | Featured \<Rightarrow> h)
      in (list, h))"


section \<open>Fetching the catalog\<close>

text \<open>A value that \<^verbatim>\<open>res.json()\<close> can produce. An object is the list of its own properties.\<close>

datatype json =
  JNull
| JBool bool
| JNum rat
| JStr string
| JArr "json list"
| JObj "(string \<times> json) list"

text \<open>
  What the network does: \<^verbatim>\<open>fetch\<close> rejects, or resolves to a response with its \<^verbatim>\<open>ok\<close>
  flag and a body that \<^verbatim>\<open>res.json()\<close> parses or fails to parse.
\<close>

datatype body = Body_invalid | Body json

datatype fetch_result = Fetch_rejected | Fetch_response bool body

text \<open>
  A record as the \<^verbatim>\<open>map\<close> callback builds it. Only \<^verbatim>\<open>id\<close> and \<^verbatim>\<open>price\<close> are converted, by
  \<^verbatim>\<open>String\<close> and \<^verbatim>\<open>Number\<close>; the other fields keep the JSON value they had, whatever its
  type, and \<^verbatim>\<open>rating\<close> may be undefined.
\<close>

record fetched =
  f_id :: string
  f_title :: json
  f_description :: json
  f_price :: number
  f_category :: json
  f_image :: json
  f_rating :: "json option"

text \<open>
  The function resolves either to the constant \<^verbatim>\<open>SAMPLE_PRODUCTS\<close> or to the array of
  coerced records.
\<close>

datatype catalog = Fallback "product list" | Coerced "fetched list"

text \<open>
  \<^verbatim>\<open>p.key\<close> for a value \<open>p\<close> that is not \<^verbatim>\<open>null\<close>, and one of the keys the callback reads:
  the own property of an object, \<^verbatim>\<open>undefined\<close> (\<open>None\<close>) otherwise, since no prototype of
  a JSON value has a property of these names.
\<close>

fun get_prop :: "json \<Rightarrow> string \<Rightarrow> json option" where
  "get_prop (JObj kvs) k = map_of kvs k"
| "get_prop v k = None"

text \<open>\<^verbatim>\<open>a ?? b\<close>: \<open>b\<close> when \<open>a\<close> is \<^verbatim>\<open>undefined\<close> or \<^verbatim>\<open>null\<close>, with \<open>b\<close> a property or a value.\<close>

fun nullish :: "json option \<Rightarrow> bool" where
  "nullish None = True"
| "nullish (Some JNull) = True"
| "nullish (Some v) = False"

definition or_prop :: "json option \<Rightarrow> json option \<Rightarrow> json option" where
  "or_prop a b = (if nullish a then b else a)"

definition or_value :: "json option \<Rightarrow> json \<Rightarrow> json" where
  "or_value a b = (case a of None \<Rightarrow> b | Some v \<Rightarrow> if v = JNull then b else v)"

text \<open>
  \<^verbatim>\<open>String(v)\<close> and \<^verbatim>\<open>Number(v)\<close>. A string converts to itself and a number to itself. The
  conversion of the other values is a parameter; it is \<open>None\<close> where the conversion throws,
  as it does for an object whose \<^verbatim>\<open>toString\<close> and \<^verbatim>\<open>valueOf\<close> properties are not functions.
  \<^verbatim>\<open>Number\<close> of a string that is not a numeric literal does not throw: it is \<open>Some NaN\<close>.
\<close>

definition js_String :: "(json \<Rightarrow> string option) \<Rightarrow> json \<Rightarrow> string option" where
  "js_String to_string v = (case v of JStr s \<Rightarrow> Some s | _ \<Rightarrow> to_string v)"

definition js_Number :: "(json \<Rightarrow> number option) \<Rightarrow> json \<Rightarrow> number option" where
  "js_Number to_number v = (case v of JNum n \<Rightarrow> Some (Finite n) | _ \<Rightarrow> to_number v)"

text \<open>
  The callback of \<^verbatim>\<open>data.map\<close>, with \<open>random_id\<close> for
  \<^verbatim>\<open>Math.random().toString(36).slice(2)\<close>. It is \<open>None\<close> when it throws: reading a property
  of \<^verbatim>\<open>null\<close> is a \<^verbatim>\<open>TypeError\<close>, and \<^verbatim>\<open>String\<close> and \<^verbatim>\<open>Number\<close> may throw.
\<close>

definition coerce ::
  "(json \<Rightarrow> string option) \<Rightarrow> (json \<Rightarrow> number option) \<Rightarrow> string \<Rightarrow> json \<Rightarrow> fetched option" where
  "coerce to_string to_number random_id p =
     (if p = JNull then None
      else
        case js_String to_string
               (or_value (or_prop (or_prop (get_prop p ''id'') (get_prop p ''_id'')) (get_prop p ''slug''))
                  (JStr random_id)) of
          None \<Rightarrow> None
        | Some i \<Rightarrow>
           (case js_Number to_number (or_value (get_prop p ''price'') (JNum 0)) of
              None \<Rightarrow> None
            | Some n \<Rightarrow>
                Some \<lparr>f_id = i,
                      f_title = or_value (or_prop (get_prop p ''title'') (get_prop p ''name''))
                                  (JStr ''Untitled product''),
                      f_description = or_value (get_prop p ''description'') (JStr []),
                      f_price = n,
                      f_category = or_value (get_prop p ''category'') (JStr ''Uncategorized''),
                      f_image = or_value (or_prop (get_prop p ''image'') (get_prop p ''imageUrl'')) (JStr []),
                      f_rating = (if nullish (get_prop p ''rating'') then None else get_prop p ''rating'')\<rparr>))"

text \<open>
  \<^verbatim>\<open>fetchProductsFromApi\<close>. The whole body is inside \<^verbatim>\<open>try\<close>, and the \<^verbatim>\<open>catch\<close> returns the
  sample products: a rejected fetch, a response that is not ok, a body that does not
  parse, a body that is not an array, and a callback that throws all end there.
  \<open>random_ids i\<close> is the identifier drawn for the record at index \<open>i\<close>.
\<close>

definition fetchProductsFromApi ::
  "(json \<Rightarrow> string option) \<Rightarrow> (json \<Rightarrow> number option) \<Rightarrow> (nat \<Rightarrow> string) \<Rightarrow>
     fetch_result \<Rightarrow> catalog" where
  "fetchProductsFromApi to_string to_number random_ids r =
     (case r of
        Fetch_rejected \<Rightarrow> Fallback SAMPLE_PRODUCTS
      | Fetch_response ok b \<Rightarrow>
          if \<not> ok then Fallback SAMPLE_PRODUCTS
          else
            (case b of
               Body_invalid \<Rightarrow> Fallback SAMPLE_PRODUCTS
             | Body data \<Rightarrow>
                 (case data of
                    JArr ps \<Rightarrow>
                      (case those (map (\<lambda>(i, p). coerce to_string to_number (random_ids i) p)
                                     (enumerate 0 ps)) of
                         None \<Rightarrow> Fallback SAMPLE_PRODUCTS
                       | Some fs \<Rightarrow> Coerced fs)
                  | _ \<Rightarrow> Fallback SAMPLE_PRODUCTS)))"


section \<open>Rounding keeps the sign\<close>

lemma round_even_pos: "1 \<le> m \<Longrightarrow> 0 < round_even m"
  unfolding round_even_def Let_def by auto

lemma round_even_neg: "m \<le> - 1 \<Longrightarrow> round_even m < 0"
  unfolding round_even_def Let_def by simp

lemma exponent_le:
  assumes "0 < y"
  shows "2 powi (exponent y) \<le> y"
proof -
  obtain p q where pq: "quotient_of y = (p, q)" by (cases "quotient_of y")
  have q: "0 < q" using quotient_of_denom_pos [OF pq] .
  have y: "y = of_int p / of_int q" using quotient_of_div [OF pq] .
  have p: "0 < p" using assms q unfolding y by (simp add: zero_less_divide_iff)
  have bp: "1 \<le> bitlen p" and bq: "1 \<le> bitlen q"
    using p q by (simp_all add: bitlen_alt_def)
  have lo: "(2::rat) ^ nat (bitlen p - 1) \<le> of_int p"
    using bitlen_bounds [OF p] by (metis of_int_le_iff of_int_numeral of_int_power)
  have hi: "of_int q \<le> (2::rat) ^ nat (bitlen q)"
    using bitlen_bounds [OF q] by (metis less_imp_le of_int_le_iff of_int_numeral of_int_power)
  have "(2::rat) powi (bitlen p - bitlen q - 1) = 2 powi (bitlen p - 1) / 2 powi (bitlen q)"
  proof -
    have e: "bitlen p - bitlen q - 1 = (bitlen p - 1) - bitlen q" by simp
    show ?thesis unfolding e by (rule power_int_diff) simp
  qed
  also have "\<dots> = 2 ^ nat (bitlen p - 1) / 2 ^ nat (bitlen q)"
    using bp bq by (simp add: power_int_def)
  also have "\<dots> \<le> of_int p / of_int q"
    using lo hi p q by (intro frac_le) simp_all
  finally have low: "(2::rat) powi (bitlen p - bitlen q - 1) \<le> y" unfolding y .
  show ?thesis
    using low by (simp add: exponent_def pq Let_def)
qed

lemma double_pos:
  assumes "0 < x"
  shows "0 < double x"
proof -
  define ulp :: rat where "ulp = 2 powi (exponent \<bar>x\<bar> - 52)"
  have u: "0 < ulp" by (simp add: ulp_def)
  have "ulp = 2 powi (exponent x) / 2 ^ 52"
    using assms by (simp add: ulp_def power_int_diff)
  also have "\<dots> \<le> x / 2 ^ 52"
    using exponent_le [OF assms] by (simp add: divide_right_mono)
  also have "\<dots> \<le> x" using assms by simp
  finally have "1 \<le> x / ulp" using u by (simp add: le_divide_eq)
  then have "0 < round_even (x / ulp)" by (rule round_even_pos)
  then have "0 < of_int (round_even (x / ulp)) * ulp" using u by simp
  moreover have "double x = of_int (round_even (x / ulp)) * ulp"
    using assms unfolding double_def ulp_def Let_def by simp
  ultimately show ?thesis by simp
qed

lemma double_neg:
  assumes "x < 0"
  shows "double x < 0"
proof -
  define ulp :: rat where "ulp = 2 powi (exponent \<bar>x\<bar> - 52)"
  have u: "0 < ulp" by (simp add: ulp_def)
  have "ulp = 2 powi (exponent (- x)) / 2 ^ 52"
    using assms by (simp add: ulp_def power_int_diff)
  also have "\<dots> \<le> (- x) / 2 ^ 52"
    using exponent_le [of "- x"] assms by (simp add: divide_right_mono)
  also have "\<dots> \<le> - x" using assms by simp
  finally have "x / ulp \<le> - 1" using u by (simp add: divide_le_eq)
  then have "round_even (x / ulp) < 0" by (rule round_even_neg)
  then have "of_int (round_even (x / ulp)) * ulp < 0" using u by (simp add: mult_less_0_iff)
  moreover have "double x = of_int (round_even (x / ulp)) * ulp"
    using assms unfolding double_def ulp_def Let_def by simp
  ultimately show ?thesis by simp
qed

lemma double_le_0_iff: "double x \<le> 0 \<longleftrightarrow> x \<le> 0"
proof (cases "x = 0")
  case True
  then show ?thesis by (simp add: double_def)
next
  case False
  show ?thesis
  proof (cases "0 < x")
    case True
    then show ?thesis using double_pos [of x] by simp
  next
    case False
    with \<open>x \<noteq> 0\<close> have "x < 0" by simp
    then show ?thesis using double_neg [of x] by simp
  qed
qed









section \<open>The subtotal of the example cart\<close>

lemma example_sum:
  "js_add (js_add (Finite 0) (js_mul (Finite (double (1999 / 100))) (Finite 2)))
       (js_mul (Finite 49) (Finite 1)) =
     Finite (3130705428464271 / 35184372088832)"
  by code_simp

lemma literal_87_98: "double (8798 / 100) = 6191042112750879 / 70368744177664"
  by code_simp

text \<open>
  C1 (as stated, refuted). Adding the sample product priced 19.99 twice and the one priced
  49.00 once to the empty cart gives a subtotal that is not the number 87.98: neither the
  double that the literal 87.98 denotes nor the exact decimal.
\<close>

theorem subtotal_not_87_98:
  "Subtotal (add_to_cart (SAMPLE_PRODUCTS ! 0) (Some (Finite 1))
       (add_to_cart (SAMPLE_PRODUCTS ! 1) (Some (Finite 1))
          (add_to_cart (SAMPLE_PRODUCTS ! 1) None []))) \<noteq> Finite (double (8798 / 100))
   \<and> Subtotal (add_to_cart (SAMPLE_PRODUCTS ! 0) (Some (Finite 1))
       (add_to_cart (SAMPLE_PRODUCTS ! 1) (Some (Finite 1))
          (add_to_cart (SAMPLE_PRODUCTS ! 1) None []))) \<noteq> Finite (8798 / 100)"
  by code_simp

text \<open>
  C1 (amended). For the cart holding a product priced 19.99 with quantity 2 and a product
  priced 49.00 with quantity 1, the subtotal is the double 88.97999999999999: the sum
  88.98 of the two products up to the rounding of double arithmetic, and not 87.98.
\<close>

theorem subtotal_example:
  "Subtotal [\<lparr>product = a\<lparr>price := Finite (double (1999 / 100))\<rparr>, quantity = Finite 2\<rparr>,
             \<lparr>product = b\<lparr>price := Finite 49\<rparr>, quantity = Finite 1\<rparr>]
     = Finite (3130705428464271 / 35184372088832)
   \<and> (\<exists>s. Subtotal [\<lparr>product = a\<lparr>price := Finite (double (1999 / 100))\<rparr>, quantity = Finite 2\<rparr>,
                     \<lparr>product = b\<lparr>price := Finite 49\<rparr>, quantity = Finite 1\<rparr>] = Finite s
          \<and> \<bar>s - 8898 / 100\<bar> < 1 / 10 ^ 13)
   \<and> Subtotal [\<lparr>product = a\<lparr>price := Finite (double (1999 / 100))\<rparr>, quantity = Finite 2\<rparr>,
               \<lparr>product = b\<lparr>price := Finite 49\<rparr>, quantity = Finite 1\<rparr>]
       \<noteq> Finite (double (8798 / 100))"
proof -
  have s: "Subtotal [\<lparr>product = a\<lparr>price := Finite (double (1999 / 100))\<rparr>, quantity = Finite 2\<rparr>,
                     \<lparr>product = b\<lparr>price := Finite 49\<rparr>, quantity = Finite 1\<rparr>]
             = Finite (3130705428464271 / 35184372088832)"
    by (simp add: Subtotal_def example_sum del: js_add.simps js_mul.simps)
  show ?thesis unfolding s literal_87_98
    by (intro conjI exI [of _ "3130705428464271 / 35184372088832"]) simp_all
qed


section \<open>Adding to the cart\<close>

lemma findIndex_lt: "findIndex P xs < int (length xs)"
  by (induction xs) (auto simp: Let_def)












section \<open>Updating a quantity\<close>

lemma update_qty_positive:
  assumes "\<forall>it\<in>set c. js_gt (quantity it) (Finite 0)" "js_gt q (Finite 0)"
  shows "update_qty productId q c =
           map (\<lambda>it. if id_p (product it) = productId then it\<lparr>quantity := q\<rparr> else it) c"
  using assms unfolding update_qty_def by (induction c) auto

lemma update_qty_nonpositive:
  assumes "\<forall>it\<in>set c. js_gt (quantity it) (Finite 0)" "\<not> js_gt q (Finite 0)"
  shows "update_qty productId q c = filter (\<lambda>it. id_p (product it) \<noteq> productId) c"
  using assms unfolding update_qty_def by (induction c) auto

lemma update_qty_absent:
  assumes "\<forall>it\<in>set c. js_gt (quantity it) (Finite 0)"
    and "productId \<notin> set (map (\<lambda>it. id_p (product it)) c)"
  shows "update_qty productId q c = c"
  using assms unfolding update_qty_def by (induction c) auto

lemma update_qty_removes:
  assumes "\<not> js_gt q (Finite 0)"
  shows "productId \<notin> set (map (\<lambda>it. id_p (product it)) (update_qty productId q c))"
  using assms unfolding update_qty_def by (induction c) auto

lemma js_le_not_gt: "js_le q (Finite 0) \<Longrightarrow> \<not> js_gt q (Finite 0)"
  by (cases q) simp_all

text \<open>
  C6 (as stated, refuted). A cart may hold an item of quantity 0: adding with quantity 0
  makes one. Updating the quantity of a product that has no item in such a cart does not
  leave the cart unchanged: the filter of the updater drops the item of quantity 0.
\<close>

theorem update_qty_changes_unmatched_cart:
  "''p2'' \<notin> set (map (\<lambda>it. id_p (product it))
       (add_to_cart (SAMPLE_PRODUCTS ! 0) (Some (Finite 0)) []))
   \<and> add_to_cart (SAMPLE_PRODUCTS ! 0) (Some (Finite 0)) []
     = [\<lparr>product = SAMPLE_PRODUCTS ! 0, quantity = Finite 0\<rparr>]
   \<and> update_qty ''p2'' (Finite 5) (add_to_cart (SAMPLE_PRODUCTS ! 0) (Some (Finite 0)) []) = []"
  by (simp add: add_to_cart_def update_qty_def SAMPLE_PRODUCTS_def)

text \<open>
  C6 (amended). For every cart whose items all have a positive quantity:
  \<open>UpdateQuantity(productId, q)\<close> sets the quantity of the matching item to \<open>q\<close> when
  \<open>q > 0\<close> and changes no other item; when \<open>q \<le> 0\<close> it removes the matching item, and the
  resulting cart has no item for \<open>productId\<close>; and it leaves the cart unchanged when no
  item matches \<open>productId\<close>. The comparisons are those of JavaScript, so a quantity \<open>NaN\<close>
  is not positive, and the update with \<open>NaN\<close> removes the matching item too.
\<close>

theorem update_qty_spec:
  assumes "\<forall>it\<in>set c. js_gt (quantity it) (Finite 0)"
  shows "(js_gt q (Finite 0) \<longrightarrow> update_qty productId q c =
            map (\<lambda>it. if id_p (product it) = productId then it\<lparr>quantity := q\<rparr> else it) c)
       \<and> (js_le q (Finite 0) \<or> q = NaN \<longrightarrow>
            update_qty productId q c = filter (\<lambda>it. id_p (product it) \<noteq> productId) c
            \<and> productId \<notin> set (map (\<lambda>it. id_p (product it)) (update_qty productId q c)))
       \<and> (productId \<notin> set (map (\<lambda>it. id_p (product it)) c) \<longrightarrow> update_qty productId q c = c)"
proof (intro conjI impI)
  assume "js_gt q (Finite 0)"
  with assms show "update_qty productId q c =
      map (\<lambda>it. if id_p (product it) = productId then it\<lparr>quantity := q\<rparr> else it) c"
    by (rule update_qty_positive)
next
  assume "js_le q (Finite 0) \<or> q = NaN"
  then have n: "\<not> js_gt q (Finite 0)" by (auto simp: js_le_not_gt)
  with assms show "update_qty productId q c = filter (\<lambda>it. id_p (product it) \<noteq> productId) c"
    by (rule update_qty_nonpositive)
  from n show "productId \<notin> set (map (\<lambda>it. id_p (product it)) (update_qty productId q c))"
    by (rule update_qty_removes)
next
  assume "productId \<notin> set (map (\<lambda>it. id_p (product it)) c)"
  with assms show "update_qty productId q c = c"
    by (rule update_qty_absent)
qed

text \<open>The hypothesis holds of a cart of two items, updated for a present and an absent product.\<close>

theorem update_qty_spec_witness:
  "update_qty ''p1'' (Finite 4) [\<lparr>product = SAMPLE_PRODUCTS ! 0, quantity = Finite 1\<rparr>,
                                 \<lparr>product = SAMPLE_PRODUCTS ! 1, quantity = Finite 2\<rparr>]
     = [\<lparr>product = SAMPLE_PRODUCTS ! 0, quantity = Finite 4\<rparr>,
        \<lparr>product = SAMPLE_PRODUCTS ! 1, quantity = Finite 2\<rparr>]
   \<and> update_qty ''p1'' (Finite 0) [\<lparr>product = SAMPLE_PRODUCTS ! 0, quantity = Finite 1\<rparr>,
                                   \<lparr>product = SAMPLE_PRODUCTS ! 1, quantity = Finite 2\<rparr>]
     = [\<lparr>product = SAMPLE_PRODUCTS ! 1, quantity = Finite 2\<rparr>]
   \<and> update_qty ''p3'' (Finite 4) [\<lparr>product = SAMPLE_PRODUCTS ! 0, quantity = Finite 1\<rparr>,
                                   \<lparr>product = SAMPLE_PRODUCTS ! 1, quantity = Finite 2\<rparr>]
     = [\<lparr>product = SAMPLE_PRODUCTS ! 0, quantity = Finite 1\<rparr>,
        \<lparr>product = SAMPLE_PRODUCTS ! 1, quantity = Finite 2\<rparr>]"
  using update_qty_spec [of "[\<lparr>product = SAMPLE_PRODUCTS ! 0, quantity = Finite 1\<rparr>,
                              \<lparr>product = SAMPLE_PRODUCTS ! 1, quantity = Finite 2\<rparr>]"
                            "Finite 4" "''p1''"]
    update_qty_spec [of "[\<lparr>product = SAMPLE_PRODUCTS ! 0, quantity = Finite 1\<rparr>,
                          \<lparr>product = SAMPLE_PRODUCTS ! 1, quantity = Finite 2\<rparr>]"
                        "Finite 0" "''p1''"]
    update_qty_spec [of "[\<lparr>product = SAMPLE_PRODUCTS ! 0, quantity = Finite 1\<rparr>,
                          \<lparr>product = SAMPLE_PRODUCTS ! 1, quantity = Finite 2\<rparr>]"
                        "Finite 4" "''p3''"]
  by (simp add: SAMPLE_PRODUCTS_def)


section \<open>The invariant of the cart\<close>

lemma findIndex_nonneg_iff: "0 \<le> findIndex P xs \<longleftrightarrow> (\<exists>x\<in>set xs. P x)"
  by (induction xs) (auto simp: Let_def)

lemma ids_add_to_cart:
  "map (\<lambda>it. id_p (product it)) (add_to_cart p qty c) =
     (if id_p p \<in> set (map (\<lambda>it. id_p (product it)) c)
      then map (\<lambda>it. id_p (product it)) c
      else map (\<lambda>it. id_p (product it)) c @ [id_p p])"
proof -
  define i where "i = findIndex (\<lambda>it :: CartItem. id_p (product it) = id_p p) c"
  have lt: "i < int (length c)" unfolding i_def by (rule findIndex_lt)
  have iff: "0 \<le> i \<longleftrightarrow> id_p p \<in> set (map (\<lambda>it. id_p (product it)) c)"
    unfolding i_def findIndex_nonneg_iff by (force simp: image_iff)
  show ?thesis
  proof (cases "0 \<le> i")
    case True
    then have "nat i < length c" using lt by simp
    then have "map (\<lambda>it. id_p (product it)) (c[nat i := (c ! nat i)\<lparr>quantity := x\<rparr>]) =
            map (\<lambda>it. id_p (product it)) c" for x
      by (simp add: map_update list_update_same_conv)
    then show ?thesis
      using True iff by (simp add: add_to_cart_def Let_def i_def [symmetric])
  next
    case False
    then show ?thesis
      using iff by (simp add: add_to_cart_def Let_def i_def [symmetric])
  qed
qed

lemma cart_inv_add: "cart_inv c \<Longrightarrow> cart_inv (add_to_cart p qty c)"
  by (simp add: cart_inv_def ids_add_to_cart)

lemma cart_inv_update: "cart_inv c \<Longrightarrow> cart_inv (update_qty productId qty c)"
proof -
  assume "cart_inv c"
  have e: "map (\<lambda>it. id_p (product it))
          (map (\<lambda>it. if id_p (product it) = productId then it\<lparr>quantity := qty\<rparr> else it) c)
        = map (\<lambda>it. id_p (product it)) c"
    by (induction c) auto
  have "distinct (map (\<lambda>it. id_p (product it))
          (map (\<lambda>it. if id_p (product it) = productId then it\<lparr>quantity := qty\<rparr> else it) c))"
    unfolding e using \<open>cart_inv c\<close> by (simp only: cart_inv_def)
  then show ?thesis
    unfolding cart_inv_def update_qty_def by (rule distinct_map_filter)
qed

lemma cart_inv_remove: "cart_inv c \<Longrightarrow> cart_inv (remove_item productId c)"
  unfolding cart_inv_def remove_item_def by (rule distinct_map_filter)

lemma cart_inv_updater: "cart_inv c \<Longrightarrow> cart_inv (updater a c)"
  by (cases a) (simp_all add: cart_inv_add cart_inv_update cart_inv_remove, simp add: cart_inv_def)

lemma cart_step: "cart (step S st aw) = updater (fst aw) (cart st)"
  by (cases "fst aw")
    (simp_all add: step_def persist_cart_def handleAddToCart_def handleUpdateQty_def
      handleRemove_def handleClearCart_def)

lemma cart_run: "cart (run S aws st) = foldl (\<lambda>c a. updater a c) (cart st) (map fst aws)"
  unfolding run_def by (induction aws arbitrary: st) (simp_all add: cart_step)

lemma cart_inv_foldl: "cart_inv c \<Longrightarrow> cart_inv (foldl (\<lambda>c a. updater a c) c as)"
  by (induction as arbitrary: c) (simp_all add: cart_inv_updater)

lemma cart_mount:
  "cart (mount P S readable w1 w2 slot) = (case load_cart P readable slot of None \<Rightarrow> [] | Some parsed \<Rightarrow> parsed)"
  by (simp add: mount_def persist_cart_def Let_def split: option.splits)

text \<open>
  C2 (as stated, refuted). Hydration does not establish the invariant: the load effect
  installs whatever \<^verbatim>\<open>JSON.parse\<close> returns. A slot that holds a sequence with two items
  for one product identifier gives a cart with two items for it. \<^verbatim>\<open>JSON.parse\<close> and
  \<^verbatim>\<open>JSON.stringify\<close> are given at the values this run passes to them.
\<close>

theorem hydration_breaks_cart_inv:
  "let raw = ''[{\"product\":{\"id\":\"p4\",\"title\":\"Mug\",\"description\":\"\",\"price\":12.5},\"quantity\":1},{\"product\":{\"id\":\"p4\",\"title\":\"Mug\",\"description\":\"\",\"price\":12.5},\"quantity\":1}]'';
       item = \<lparr>product = \<lparr>id_p = ''p4'', title = ''Mug'', description = [], price = Finite (25 / 2),
                             image_p = None, category = None, rating = None\<rparr>,
              quantity = Finite 1\<rparr>;
       JSON_parse = (\<lambda>s. if s = ''[]'' then Some [] else if s = raw then Some [item, item] else None);
       JSON_stringify = (\<lambda>c. if c = [] then ''[]'' else raw)
   in \<not> cart_inv (cart (mount JSON_parse JSON_stringify True True True (Some raw)))"
  by (simp add: cart_mount load_cart_def cart_inv_def Let_def)

text \<open>
  C2 (amended). The invariant "at most one item per product identifier" holds of the empty
  cart the page is created with, and hydration keeps it when the stored sequence has it
  (the load effect installs the parsed sequence as it is); from there every sequence of
  \<open>Add\<close>, \<open>UpdateQuantity\<close>, \<open>Remove\<close> and \<open>Clear\<close> preserves it, whatever the outcome of
  the writes to storage.
\<close>

theorem cart_inv_reachable:
  assumes "\<forall>parsed. load_cart JSON_parse readable slot = Some parsed \<longrightarrow> cart_inv parsed"
  shows "cart_inv (cart (run JSON_stringify aws
           (mount JSON_parse JSON_stringify readable writable1 writable2 slot)))"
proof -
  have "cart_inv (cart (mount JSON_parse JSON_stringify readable writable1 writable2 slot))"
    using assms unfolding cart_mount by (auto simp: cart_inv_def split: option.splits)
  then show ?thesis unfolding cart_run by (rule cart_inv_foldl)
qed

text \<open>
  The hypothesis holds of a slot that stores one item; four actions follow, and the writes
  that succeed are those of the stored cart and of the empty cart.
\<close>

theorem cart_inv_reachable_witness:
  "let raw = ''[{\"product\":{\"id\":\"p4\",\"title\":\"Mug\",\"description\":\"\",\"price\":12.5},\"quantity\":1}]'';
       item = \<lparr>product = \<lparr>id_p = ''p4'', title = ''Mug'', description = [], price = Finite (25 / 2),
                             image_p = None, category = None, rating = None\<rparr>,
              quantity = Finite 1\<rparr>;
       JSON_parse = (\<lambda>s. if s = ''[]'' then Some [] else if s = raw then Some [item] else None);
       JSON_stringify = (\<lambda>c. if c = [] then ''[]'' else raw)
   in cart_inv (cart (run JSON_stringify
        [(Add (SAMPLE_PRODUCTS ! 0) None, False), (UpdateQuantity ''p4'' (Finite 3), False),
         (Remove ''p1'', False), (Clear, True)]
        (mount JSON_parse JSON_stringify True True True (Some raw))))"
  unfolding Let_def
  by (rule cart_inv_reachable) (simp add: load_cart_def cart_inv_def)


section \<open>Persistence fails silently\<close>

text \<open>
  C9. When the slot is absent, cannot be read, is the empty string or does not parse, the
  mounted page has the empty cart: every such failure is swallowed and the state is the
  initial one. The cart after any sequence of actions is the result of the updaters alone,
  whatever the outcome of each write; a write that throws leaves the slot as it was and
  the cart updated.
\<close>

theorem persistence_degrades_silently:
  "(slot = None \<or> \<not> readable \<or> slot = Some [] \<or> (\<exists>raw. slot = Some raw \<and> JSON_parse raw = None) \<longrightarrow>
      cart (mount JSON_parse JSON_stringify readable writable1 writable2 slot) = [])
   \<and> cart (run JSON_stringify aws st) = foldl (\<lambda>c a. updater a c) (cart st) (map fst aws)
   \<and> cart (step JSON_stringify st (a, False)) = updater a (cart st)
   \<and> storage (step JSON_stringify st (a, False)) = storage st"
proof (intro conjI impI)
  assume "slot = None \<or> \<not> readable \<or> slot = Some [] \<or> (\<exists>raw. slot = Some raw \<and> JSON_parse raw = None)"
  then have "load_cart JSON_parse readable slot = None"
    by (auto simp: load_cart_def)
  then show "cart (mount JSON_parse JSON_stringify readable writable1 writable2 slot) = []"
    by (simp add: cart_mount)
next
  show "cart (run JSON_stringify aws st) = foldl (\<lambda>c a. updater a c) (cart st) (map fst aws)"
    by (rule cart_run)
next
  show "cart (step JSON_stringify st (a, False)) = updater a (cart st)"
    by (simp add: cart_step)
next
  show "storage (step JSON_stringify st (a, False)) = storage st"
    by (cases a)
      (simp_all add: step_def persist_cart_def handleAddToCart_def handleUpdateQty_def
        handleRemove_def handleClearCart_def)
qed

text \<open>A slot whose content does not parse, and an absent slot with failing writes.\<close>

theorem persistence_degrades_silently_witness:
  "cart (mount (\<lambda>s. if s = ''[]'' then Some [] else None) (\<lambda>c. ''[]'')
          True True True (Some ''{not json'')) = []
   \<and> cart (mount (\<lambda>s. if s = ''[]'' then Some [] else None) (\<lambda>c. ''[]'')
          True False False None) = []"
  using persistence_degrades_silently
      [of "Some ''{not json''" True "\<lambda>s. if s = ''[]'' then Some [] else None" "\<lambda>c. ''[]''"
          True True]
    persistence_degrades_silently
      [of None True "\<lambda>s. if s = ''[]'' then Some [] else None" "\<lambda>c. ''[]''" False False]
  by simp


section \<open>Substrings\<close>

lemma startsWith_iff: "startsWith s q \<longleftrightarrow> (\<exists>post. s = q @ post)"
  by (induction s q rule: startsWith.induct) auto

lemma includes_str_iff: "includes_str s q \<longleftrightarrow> (\<exists>pre post. s = pre @ q @ post)"
proof (induction s)
  case Nil
  then show ?case by auto
next
  case (Cons x s)
  show ?case
  proof
    assume "includes_str (x # s) q"
    then consider "startsWith (x # s) q" | "includes_str s q" by auto
    then show "\<exists>pre post. x # s = pre @ q @ post"
    proof cases
      case 1
      then obtain post where "x # s = q @ post" unfolding startsWith_iff by blast
      then have "x # s = [] @ q @ post" by simp
      then show ?thesis by blast
    next
      case 2
      then obtain pre post where "s = pre @ q @ post" using Cons.IH by blast
      then have "x # s = (x # pre) @ q @ post" by simp
      then show ?thesis by blast
    qed
  next
    assume "\<exists>pre post. x # s = pre @ q @ post"
    then obtain pre post where e: "x # s = pre @ q @ post" by blast
    show "includes_str (x # s) q"
    proof (cases pre)
      case Nil
      then have "startsWith (x # s) q" using e unfolding startsWith_iff by auto
      then show ?thesis by simp
    next
      case (Cons y pre')
      then have "s = pre' @ q @ post" using e by simp
      then have "includes_str s q" using Cons.IH by blast
      then show ?thesis by simp
    qed
  qed
qed


section \<open>The search filter\<close>

lemma matches_iff:
  "matches q p \<longleftrightarrow>
     (\<exists>pre post. toLowerCase (title p) = pre @ q @ post)
     \<or> (\<exists>pre post. toLowerCase (description p) = pre @ q @ post)"
  by (simp add: matches_def includes_str_iff)

lemma vp_featured:
  "visibleProducts C q cat Featured =
     filter (\<lambda>p. cat = ''All'' \<or> category p = Some cat)
       (filter (\<lambda>p. trim q = [] \<or> (\<exists>pre post. toLowerCase (title p) = pre @ toLowerCase q @ post)
                  \<or> (\<exists>pre post. toLowerCase (description p) = pre @ toLowerCase q @ post)) C)"
  by (simp add: visibleProducts_def Let_def matches_iff [symmetric])

lemma vp_featured_subset: "set (visibleProducts C q cat Featured) \<subseteq> set C"
  unfolding vp_featured by auto

lemma vp_sorted:
  "visibleProducts C q cat Price_asc = js_sort by_price_asc (visibleProducts C q cat Featured)"
  "visibleProducts C q cat Price_desc = js_sort by_price_desc (visibleProducts C q cat Featured)"
  "visibleProducts C q cat Rating = js_sort by_rating (visibleProducts C q cat Featured)"
  by (simp_all add: visibleProducts_def Let_def)

lemma set_insert_by: "set (insert_by cmp x xs) = insert x (set xs)"
  by (induction xs) auto

lemma set_js_sort: "set (js_sort cmp xs) = set xs"
  unfolding js_sort_def by (induction xs) (simp_all add: set_insert_by)

lemma vp_set: "set (visibleProducts C q cat sort_by) = set (visibleProducts C q cat Featured)"
  by (cases sort_by) (simp_all add: vp_sorted set_js_sort)

lemma vp_featured_search:
  "trim q \<noteq> [] \<Longrightarrow> visibleProducts C q cat Featured =
     filter (\<lambda>p. cat = ''All'' \<or> category p = Some cat) (filter (matches (toLowerCase q)) C)"
  by (simp add: visibleProducts_def Let_def)

text \<open>
  C3. For every catalog and every search string \<open>q\<close> that is not empty after trimming, a
  product is among the visible products exactly when it is in the catalog, the lower-cased
  \<open>q\<close> is a contiguous part of its lower-cased title or of its lower-cased description,
  and it passes the category filter. So every visible product has \<open>q\<close> as a case-insensitive
  substring of its title or description, and a product that lacks it in both is excluded.
\<close>

theorem search_filter_spec:
  assumes "trim q \<noteq> []"
  shows "p \<in> set (visibleProducts C q cat sort_by) \<longleftrightarrow>
           p \<in> set C
           \<and> ((\<exists>pre post. toLowerCase (title p) = pre @ toLowerCase q @ post)
              \<or> (\<exists>pre post. toLowerCase (description p) = pre @ toLowerCase q @ post))
           \<and> (cat = ''All'' \<or> category p = Some cat)"
  unfolding vp_set [of C q cat sort_by] vp_featured_search [OF assms] matches_iff [symmetric]
  by auto

text \<open>The search string \<open>WireLess\<close> with a trailing space finds the headphones.\<close>

theorem search_filter_spec_witness:
  "SAMPLE_PRODUCTS ! 2 \<in> set (visibleProducts SAMPLE_PRODUCTS ''WireLess '' ''All'' Price_asc)"
proof -
  have h: "trim ''WireLess '' \<noteq> []" by code_simp
  have m: "matches (toLowerCase ''WireLess '') (SAMPLE_PRODUCTS ! 2)" by code_simp
  have i: "SAMPLE_PRODUCTS ! 2 \<in> set SAMPLE_PRODUCTS" by (simp add: SAMPLE_PRODUCTS_def)
  show ?thesis
    using search_filter_spec [OF h, of "SAMPLE_PRODUCTS ! 2" SAMPLE_PRODUCTS "''All''" Price_asc]
      m [unfolded matches_iff] i
    by blast
qed

text \<open>
  C10. White space in the search string counts. When the search string is not empty after
  trimming, the filter compares with the lower-cased search string as typed, not with the
  trimmed one. On the sample catalog, \<open>wireless\<close> finds the headphones and the same word
  with a leading space finds nothing, although both trim to the same string; \<open>mug\<close> with a
  leading space finds the mug, whose title has a space before the word.
\<close>

theorem search_uses_untrimmed_string:
  "(trim q \<noteq> [] \<longrightarrow>
      visibleProducts C q ''All'' Featured =
        filter (\<lambda>p. (\<exists>pre post. toLowerCase (title p) = pre @ toLowerCase q @ post)
                   \<or> (\<exists>pre post. toLowerCase (description p) = pre @ toLowerCase q @ post)) C)
   \<and> trim '' wireless'' = ''wireless''
   \<and> visibleProducts SAMPLE_PRODUCTS ''wireless'' ''All'' Featured = [SAMPLE_PRODUCTS ! 2]
   \<and> visibleProducts SAMPLE_PRODUCTS '' wireless'' ''All'' Featured = []
   \<and> visibleProducts SAMPLE_PRODUCTS '' mug'' ''All'' Featured = [SAMPLE_PRODUCTS ! 3]"
proof (intro conjI impI)
  assume "trim q \<noteq> []"
  then show "visibleProducts C q ''All'' Featured =
        filter (\<lambda>p. (\<exists>pre post. toLowerCase (title p) = pre @ toLowerCase q @ post)
                   \<or> (\<exists>pre post. toLowerCase (description p) = pre @ toLowerCase q @ post)) C"
    by (simp add: vp_featured_search matches_iff [symmetric])
next
  show "trim '' wireless'' = ''wireless''" by code_simp
next
  show "visibleProducts SAMPLE_PRODUCTS ''wireless'' ''All'' Featured = [SAMPLE_PRODUCTS ! 2]"
    by code_simp
next
  show "visibleProducts SAMPLE_PRODUCTS '' wireless'' ''All'' Featured = []"
    by code_simp
next
  show "visibleProducts SAMPLE_PRODUCTS '' mug'' ''All'' Featured = [SAMPLE_PRODUCTS ! 3]"
    by code_simp
qed

text \<open>The search string \<open>mug\<close> with a leading space is not empty after trimming.\<close>

theorem search_uses_untrimmed_string_witness:
  "trim '' mug'' \<noteq> []
   \<and> visibleProducts SAMPLE_PRODUCTS '' mug'' ''All'' Featured =
       filter (\<lambda>p. (\<exists>pre post. toLowerCase (title p) = pre @ toLowerCase '' mug'' @ post)
                  \<or> (\<exists>pre post. toLowerCase (description p) = pre @ toLowerCase '' mug'' @ post))
         SAMPLE_PRODUCTS"
proof -
  have h: "trim '' mug'' \<noteq> []" by code_simp
  show ?thesis
    using search_uses_untrimmed_string [of "'' mug''" SAMPLE_PRODUCTS] h by blast
qed


section \<open>The sort of the visible products\<close>

lemma insert_by_insort_key:
  assumes "\<forall>y\<in>set xs. (\<not> js_gt (cmp x y) (Finite 0)) = (key x \<le> key y)"
  shows "insert_by cmp x xs = insort_key (key :: 'a \<Rightarrow> rat) x xs"
  using assms by (induction xs) auto

lemma js_sort_sort_key:
  assumes "\<forall>x\<in>set xs. \<forall>y\<in>set xs. (\<not> js_gt (cmp x y) (Finite 0)) = (key x \<le> key y)"
  shows "js_sort cmp xs = sort_key (key :: 'a \<Rightarrow> rat) xs"
  using assms
proof (induction xs)
  case Nil
  then show ?case by (simp add: js_sort_def)
next
  case (Cons x xs)
  have ih: "js_sort cmp xs = sort_key key xs" using Cons by simp
  have "insert_by cmp x (sort_key key xs) = insort_key key x (sort_key key xs)"
    using Cons.prems by (intro insert_by_insort_key) simp
  then show ?case using ih by (simp add: js_sort_def sort_key_def)
qed

lemma sub_sign:
  assumes "a \<noteq> NaN" "b \<noteq> NaN"
  shows "(\<not> js_gt (js_sub a b) (Finite 0)) = (finite_value a \<le> finite_value b)"
  using assms by (cases a; cases b) (simp_all add: not_less double_le_0_iff)

lemma sorted_js_le:
  assumes "\<forall>x\<in>set xs. f x \<noteq> NaN" "sorted (map (\<lambda>x. finite_value (f x)) xs)"
  shows "sorted_wrt js_le (map f xs)"
proof -
  have "sorted_wrt (\<lambda>x y. finite_value (f x) \<le> finite_value (f y)) xs"
    using assms(2) by (simp add: sorted_wrt_map)
  then have "sorted_wrt (\<lambda>x y. js_le (f x) (f y)) xs"
  proof (rule sorted_wrt_mono_rel [rotated])
    fix x y assume "x \<in> set xs" "y \<in> set xs" "finite_value (f x) \<le> finite_value (f y)"
    then show "js_le (f x) (f y)" using assms(1) by (cases "f x"; cases "f y") auto
  qed
  then show ?thesis by (simp add: sorted_wrt_map)
qed

lemma sorted_js_ge:
  assumes "\<forall>x\<in>set xs. f x \<noteq> NaN" "sorted (map (\<lambda>x. - finite_value (f x)) xs)"
  shows "sorted_wrt (\<lambda>a b. js_le b a) (map f xs)"
proof -
  have "sorted_wrt (\<lambda>x y. - finite_value (f x) \<le> - finite_value (f y)) xs"
    using assms(2) by (simp add: sorted_wrt_map)
  then have "sorted_wrt (\<lambda>x y. js_le (f y) (f x)) xs"
  proof (rule sorted_wrt_mono_rel [rotated])
    fix x y assume "x \<in> set xs" "y \<in> set xs" "- finite_value (f x) \<le> - finite_value (f y)"
    then show "js_le (f y) (f x)" using assms(1) by (cases "f x"; cases "f y") auto
  qed
  then show ?thesis by (simp add: sorted_wrt_map)
qed

lemma stable_by_key:
  assumes "\<forall>x\<in>set xs. f x \<noteq> NaN" "inj g"
  shows "filter (\<lambda>x. f x = k) (sort_key (\<lambda>x. g (finite_value (f x))) xs) = filter (\<lambda>x. f x = k) xs"
proof (cases k)
  case NaN
  then show ?thesis using assms(1) by (simp add: filter_empty_conv)
next
  case (Finite r)
  have e: "(f x = k) = (g (finite_value (f x)) = g r)" if "x \<in> set xs" for x
    using that assms Finite by (cases "f x") (auto dest: injD)
  have "filter (\<lambda>x. f x = k) (sort_key (\<lambda>x. g (finite_value (f x))) xs)
      = filter (\<lambda>x. g (finite_value (f x)) = g r) (sort_key (\<lambda>x. g (finite_value (f x))) xs)"
    by (rule filter_cong) (simp_all add: e)
  also have "\<dots> = filter (\<lambda>x. g (finite_value (f x)) = g r) xs"
    by (rule sort_key_stable)
  also have "\<dots> = filter (\<lambda>x. f x = k) xs"
    by (rule filter_cong) (simp_all add: e)
  finally show ?thesis .
qed

lemma sort_price_asc:
  assumes "\<forall>p\<in>set xs. price p \<noteq> NaN"
  shows "js_sort by_price_asc xs = sort_key (\<lambda>p. finite_value (price p)) xs"
  using assms by (intro js_sort_sort_key) (simp add: by_price_asc_def sub_sign)

lemma sort_price_desc:
  assumes "\<forall>p\<in>set xs. price p \<noteq> NaN"
  shows "js_sort by_price_desc xs = sort_key (\<lambda>p. - finite_value (price p)) xs"
  using assms by (intro js_sort_sort_key) (simp add: by_price_desc_def sub_sign)

lemma sort_rating:
  assumes "\<forall>p\<in>set xs. rate_or_0 p \<noteq> NaN"
  shows "js_sort by_rating xs = sort_key (\<lambda>p. - finite_value (rate_or_0 p)) xs"
  using assms by (intro js_sort_sort_key) (simp add: by_rating_def sub_sign)

lemma rate_or_0_not_NaN:
  assumes "\<forall>p\<in>set C. \<forall>r. rating p = Some r \<longrightarrow> rate r \<noteq> NaN" "p \<in> set C"
  shows "rate_or_0 p \<noteq> NaN"
  using assms by (auto simp: rate_or_0_def split: option.splits)

text \<open>
  C4 (as stated, refuted). A price can be \<open>NaN\<close>: the fetch stores \<^verbatim>\<open>Number(p.price ?? 0)\<close>,
  which is \<open>NaN\<close> for a price such as \<^verbatim>\<open>'abc'\<close>. A difference with \<open>NaN\<close> is \<open>NaN\<close>, which the
  sort reads as "equal", so the comparator is not consistent. For the catalog with the
  prices 3, \<open>NaN\<close>, 1, 2 the price-ascending order is 3, \<open>NaN\<close>, 1, 2: the prices are not
  non-decreasing.
\<close>

theorem nan_price_breaks_sort:
  "map price (visibleProducts
       [(SAMPLE_PRODUCTS ! 0)\<lparr>price := Finite 3\<rparr>, (SAMPLE_PRODUCTS ! 1)\<lparr>price := NaN\<rparr>,
        (SAMPLE_PRODUCTS ! 2)\<lparr>price := Finite 1\<rparr>, (SAMPLE_PRODUCTS ! 3)\<lparr>price := Finite 2\<rparr>]
       [] ''All'' Price_asc)
     = [Finite 3, NaN, Finite 1, Finite 2]
   \<and> \<not> sorted_wrt js_le (map price (visibleProducts
       [(SAMPLE_PRODUCTS ! 0)\<lparr>price := Finite 3\<rparr>, (SAMPLE_PRODUCTS ! 1)\<lparr>price := NaN\<rparr>,
        (SAMPLE_PRODUCTS ! 2)\<lparr>price := Finite 1\<rparr>, (SAMPLE_PRODUCTS ! 3)\<lparr>price := Finite 2\<rparr>]
       [] ''All'' Price_asc))"
  by code_simp

text \<open>
  C4 (amended). For every catalog in which no price is \<open>NaN\<close>, and every search string and
  category, the visible products under the sort key price-ascending have non-decreasing
  prices and under price-descending non-increasing prices; for every catalog in which no
  rate is \<open>NaN\<close>, under rating-descending they have non-increasing rates, a missing rating
  counting as rate 0. The sort is stable: for every key \<open>k\<close>, the products whose price (or
  rate) is \<open>k\<close> come in the order they have in the sequence \<open>F\<close> that the two filters
  leave of the catalog.
\<close>

theorem visibleProducts_sorted_stable:
  "let F = filter (\<lambda>p. cat = ''All'' \<or> category p = Some cat)
             (filter (\<lambda>p. trim q = []
                          \<or> (\<exists>pre post. toLowerCase (title p) = pre @ toLowerCase q @ post)
                          \<or> (\<exists>pre post. toLowerCase (description p) = pre @ toLowerCase q @ post)) C);
       rate_of = (\<lambda>p. case rating p of None \<Rightarrow> Finite 0 | Some r \<Rightarrow> rate r)
   in ((\<forall>p\<in>set C. price p \<noteq> NaN) \<longrightarrow>
         sorted_wrt js_le (map price (visibleProducts C q cat Price_asc))
         \<and> sorted_wrt (\<lambda>a b. js_le b a) (map price (visibleProducts C q cat Price_desc))
         \<and> filter (\<lambda>p. price p = k) (visibleProducts C q cat Price_asc)
             = filter (\<lambda>p. price p = k) F
         \<and> filter (\<lambda>p. price p = k) (visibleProducts C q cat Price_desc)
             = filter (\<lambda>p. price p = k) F)
      \<and> ((\<forall>p\<in>set C. \<forall>r. rating p = Some r \<longrightarrow> rate r \<noteq> NaN) \<longrightarrow>
         sorted_wrt (\<lambda>a b. js_le b a) (map rate_of (visibleProducts C q cat Rating))
         \<and> filter (\<lambda>p. rate_of p = k) (visibleProducts C q cat Rating)
             = filter (\<lambda>p. rate_of p = k) F)"
proof -
  define F where "F = visibleProducts C q cat Featured"
  have sub: "set F \<subseteq> set C" unfolding F_def by (rule vp_featured_subset)
  have rate_of: "(\<lambda>p. case rating p of None \<Rightarrow> Finite 0 | Some r \<Rightarrow> rate r) = rate_or_0"
    by (simp add: rate_or_0_def fun_eq_iff)
  have price: "sorted_wrt js_le (map price (visibleProducts C q cat Price_asc))
         \<and> sorted_wrt (\<lambda>a b. js_le b a) (map price (visibleProducts C q cat Price_desc))
         \<and> filter (\<lambda>p. price p = k) (visibleProducts C q cat Price_asc)
             = filter (\<lambda>p. price p = k) F
         \<and> filter (\<lambda>p. price p = k) (visibleProducts C q cat Price_desc)
             = filter (\<lambda>p. price p = k) F"
    if "\<forall>p\<in>set C. price p \<noteq> NaN"
  proof -
    have fin: "\<forall>p\<in>set F. price p \<noteq> NaN" using that sub by auto
    have asc: "visibleProducts C q cat Price_asc = sort_key (\<lambda>p. finite_value (price p)) F"
      unfolding vp_sorted F_def [symmetric] by (rule sort_price_asc [OF fin])
    have desc: "visibleProducts C q cat Price_desc = sort_key (\<lambda>p. - finite_value (price p)) F"
      unfolding vp_sorted F_def [symmetric] by (rule sort_price_desc [OF fin])
    have fin': "\<forall>p\<in>set (sort_key g F). price p \<noteq> NaN" for g :: "product \<Rightarrow> rat"
      using fin by simp
    show ?thesis
    proof (intro conjI)
      show "sorted_wrt js_le (map price (visibleProducts C q cat Price_asc))"
        unfolding asc by (rule sorted_js_le [OF fin']) (rule sorted_sort_key)
      show "sorted_wrt (\<lambda>a b. js_le b a) (map price (visibleProducts C q cat Price_desc))"
        unfolding desc by (rule sorted_js_ge [OF fin']) (rule sorted_sort_key)
      show "filter (\<lambda>p. price p = k) (visibleProducts C q cat Price_asc)
             = filter (\<lambda>p. price p = k) F"
        unfolding asc using stable_by_key [OF fin, of "\<lambda>x. x" k] by simp
      show "filter (\<lambda>p. price p = k) (visibleProducts C q cat Price_desc)
             = filter (\<lambda>p. price p = k) F"
        unfolding desc using stable_by_key [OF fin, of uminus k] by simp
    qed
  qed
  have rating: "sorted_wrt (\<lambda>a b. js_le b a) (map rate_or_0 (visibleProducts C q cat Rating))
         \<and> filter (\<lambda>p. rate_or_0 p = k) (visibleProducts C q cat Rating)
             = filter (\<lambda>p. rate_or_0 p = k) F"
    if "\<forall>p\<in>set C. \<forall>r. rating p = Some r \<longrightarrow> rate r \<noteq> NaN"
  proof -
    have fin: "\<forall>p\<in>set F. rate_or_0 p \<noteq> NaN"
      using rate_or_0_not_NaN [OF that] sub by auto
    have r: "visibleProducts C q cat Rating = sort_key (\<lambda>p. - finite_value (rate_or_0 p)) F"
      unfolding vp_sorted F_def [symmetric] by (rule sort_rating [OF fin])
    have fin': "\<forall>p\<in>set (sort_key g F). rate_or_0 p \<noteq> NaN" for g :: "product \<Rightarrow> rat"
      using fin by simp
    show ?thesis
    proof (intro conjI)
      show "sorted_wrt (\<lambda>a b. js_le b a) (map rate_or_0 (visibleProducts C q cat Rating))"
        unfolding r by (rule sorted_js_ge [OF fin']) (rule sorted_sort_key)
      show "filter (\<lambda>p. rate_or_0 p = k) (visibleProducts C q cat Rating)
             = filter (\<lambda>p. rate_or_0 p = k) F"
        unfolding r using stable_by_key [OF fin, of uminus k] by simp
    qed
  qed
  show ?thesis
    unfolding Let_def rate_of vp_featured [symmetric] F_def [symmetric]
    using price rating by blast
qed

text \<open>No price and no rate of the sample catalog is \<open>NaN\<close>.\<close>

theorem visibleProducts_sorted_stable_witness:
  "sorted_wrt js_le (map price (visibleProducts SAMPLE_PRODUCTS [] ''All'' Price_asc))
   \<and> sorted_wrt (\<lambda>a b. js_le b a) (map price (visibleProducts SAMPLE_PRODUCTS [] ''All'' Price_desc))
   \<and> sorted_wrt (\<lambda>a b. js_le b a)
        (map (\<lambda>p. case rating p of None \<Rightarrow> Finite 0 | Some r \<Rightarrow> rate r)
           (visibleProducts SAMPLE_PRODUCTS [] ''All'' Rating))"
proof -
  have h1: "\<forall>p\<in>set SAMPLE_PRODUCTS. price p \<noteq> NaN"
    by (simp add: SAMPLE_PRODUCTS_def)
  have h2: "\<forall>p\<in>set SAMPLE_PRODUCTS. \<forall>r. rating p = Some r \<longrightarrow> rate r \<noteq> NaN"
    by (simp add: SAMPLE_PRODUCTS_def)
  show ?thesis
    using visibleProducts_sorted_stable
            [unfolded Let_def, where C = SAMPLE_PRODUCTS and q = "[]" and cat = "''All''"]
          h1 h2
    by blast
qed


section \<open>The catalog is not mutated\<close>

lemma vp_heap:
  assumes "products < length h"
  shows "case visibleProducts_heap products search cat sort_by h of
           (list, h') \<Rightarrow> length h \<le> list \<and> list < length h' \<and> take (length h) h' = h
                         \<and> h' ! list = visibleProducts (h ! products) search cat sort_by"
  using assms
  by (cases sort_by)
    (auto simp: visibleProducts_heap_def visibleProducts_def slice_def filter_array_def
      sort_array_def Let_def nth_append)

text \<open>
  C7. With the empty search string, the category \<open>All\<close> and the sort key featured, the
  visible products are the catalog, in its order and with nothing filtered. On the store:
  the result is a new array with the content of the catalog, and for every search string,
  category and sort key the catalog and every other array allocated before the call are
  left as they were (the sort runs on the copy).
\<close>

theorem featured_identity_no_mutation:
  "visibleProducts C [] ''All'' Featured = C
   \<and> (products < length h \<longrightarrow>
        (case visibleProducts_heap products [] ''All'' Featured h of
           (list, h') \<Rightarrow> h' ! list = h ! products \<and> list \<noteq> products)
      \<and> (case visibleProducts_heap products search cat sort_by h of
           (list, h') \<Rightarrow> h' ! products = h ! products \<and> take (length h) h' = h))"
proof (intro conjI impI)
  show id: "visibleProducts C [] ''All'' Featured = C" for C
    by (simp add: visibleProducts_def trim_def)
  assume a: "products < length h"
  show "case visibleProducts_heap products [] ''All'' Featured h of
           (list, h') \<Rightarrow> h' ! list = h ! products \<and> list \<noteq> products"
    using vp_heap [OF a, of "[]" "''All''" Featured] a by (auto simp: id)
  show "case visibleProducts_heap products search cat sort_by h of
           (list, h') \<Rightarrow> h' ! products = h ! products \<and> take (length h) h' = h"
  proof -
    obtain list h' where r: "visibleProducts_heap products search cat sort_by h = (list, h')"
      by (cases "visibleProducts_heap products search cat sort_by h")
    have t: "take (length h) h' = h"
      using vp_heap [OF a, of search cat sort_by] by (simp add: r)
    have "h' ! products = take (length h) h' ! products" using a by simp
    then show ?thesis using t by (simp add: r)
  qed
qed

text \<open>A store that holds the sample catalog at address 0.\<close>

theorem featured_identity_no_mutation_witness:
  "(case visibleProducts_heap 0 [] ''All'' Featured [SAMPLE_PRODUCTS] of
      (list, h') \<Rightarrow> h' ! list = SAMPLE_PRODUCTS \<and> list \<noteq> 0)
   \<and> (case visibleProducts_heap 0 ''mug'' ''Home'' Price_desc [SAMPLE_PRODUCTS] of
      (list, h') \<Rightarrow> h' ! 0 = SAMPLE_PRODUCTS)"
  using featured_identity_no_mutation [of SAMPLE_PRODUCTS 0 "[SAMPLE_PRODUCTS]" "''mug''" "''Home''" Price_desc]
  by (simp split: prod.splits)


section \<open>The catalog fetch and its fallback\<close>

lemma those_eq_None: "those os = None \<longleftrightarrow> None \<in> set os"
  by (induction os) (auto split: option.splits)

lemma coerce_null: "coerce to_string to_number random_id JNull = None"
  by (simp add: coerce_def)

lemma or_value_nullish: "nullish a \<Longrightarrow> or_value a b = b"
  by (cases a rule: nullish.cases) (simp_all add: or_value_def)

lemma or_prop_nullish: "nullish a \<Longrightarrow> or_prop a b = b"
  by (simp add: or_prop_def)

lemma coerce_defaults:
  assumes "coerce to_string to_number random_id p = Some f"
  shows "(nullish (get_prop p ''id'') \<and> nullish (get_prop p ''_id'') \<and> nullish (get_prop p ''slug'')
            \<longrightarrow> f_id f = random_id)
       \<and> (nullish (get_prop p ''title'') \<and> nullish (get_prop p ''name'')
            \<longrightarrow> f_title f = JStr ''Untitled product'')
       \<and> (nullish (get_prop p ''price'') \<longrightarrow> f_price f = Finite 0)
       \<and> (nullish (get_prop p ''category'') \<longrightarrow> f_category f = JStr ''Uncategorized'')"
  using assms
  by (auto simp: coerce_def or_value_nullish or_prop_nullish js_String_def js_Number_def
      split: if_splits option.splits)

lemma coerce_fails_iff:
  "(coerce ts tn random_id p = None) =
     (p = JNull
      \<or> js_String ts
           (or_value (or_prop (or_prop (get_prop p ''id'') (get_prop p ''_id'')) (get_prop p ''slug''))
              (JStr random_id)) = None
      \<or> js_Number tn (or_value (get_prop p ''price'') (JNum 0)) = None)"
  by (auto simp: coerce_def split: option.splits)

lemma coerce_total:
  assumes "p \<noteq> JNull"
    and "nullish (get_prop p ''id'')" "nullish (get_prop p ''_id'')" "nullish (get_prop p ''slug'')"
    and "nullish (get_prop p ''price'')"
  shows "\<exists>f. coerce to_string to_number random_id p = Some f"
  using assms
  by (simp add: coerce_def or_value_nullish or_prop_nullish js_String_def js_Number_def)

lemma those_list_all2:
  "list_all2 (\<lambda>e f. g e = Some f) es fs \<Longrightarrow> those (map g es) = Some fs"
  by (induction es fs rule: list_all2_induct) simp_all

lemma fetch_array_ok:
  assumes "list_all2 (\<lambda>(i, p) f. coerce ts tn (rnd i) p = Some f) (enumerate 0 ps) fs"
  shows "fetchProductsFromApi ts tn rnd (Fetch_response True (Body (JArr ps))) = Coerced fs"
proof -
  have "list_all2 (\<lambda>e f. (\<lambda>(i, p). coerce ts tn (rnd i) p) e = Some f) (enumerate 0 ps) fs"
    using assms by (simp add: case_prod_unfold)
  then have "those (map (\<lambda>(i, p). coerce ts tn (rnd i) p) (enumerate 0 ps)) = Some fs"
    by (rule those_list_all2)
  then show ?thesis by (simp add: fetchProductsFromApi_def)
qed

lemma fetch_array_null:
  assumes "JNull \<in> set ps"
  shows "fetchProductsFromApi ts tn rnd (Fetch_response True (Body (JArr ps))) =
           Fallback SAMPLE_PRODUCTS"
proof -
  obtain i where i: "i < length ps" "ps ! i = JNull"
    using assms by (auto simp: in_set_conv_nth)
  then have "(i, JNull) \<in> set (enumerate 0 ps)"
    by (auto simp: in_set_enumerate_eq)
  then have "None \<in> set (map (\<lambda>(i, p). coerce ts tn (rnd i) p) (enumerate 0 ps))"
    by (force simp: coerce_null)
  then have "those (map (\<lambda>(i, p). coerce ts tn (rnd i) p) (enumerate 0 ps)) = None"
    by (simp only: those_eq_None)
  then show ?thesis by (simp add: fetchProductsFromApi_def)
qed

lemma fetch_fallback_iff:
  "(fetchProductsFromApi ts tn rnd (Fetch_response True (Body (JArr ps))) = Fallback SAMPLE_PRODUCTS)
     = (\<exists>i<length ps. coerce ts tn (rnd i) (ps ! i) = None)"
proof -
  have "(those (map (\<lambda>(i, p). coerce ts tn (rnd i) p) (enumerate 0 ps)) = None)
      = (\<exists>i<length ps. coerce ts tn (rnd i) (ps ! i) = None)"
    unfolding those_eq_None
  proof
    assume "None \<in> set (map (\<lambda>(i, p). coerce ts tn (rnd i) p) (enumerate 0 ps))"
    then obtain i p where "(i, p) \<in> set (enumerate 0 ps)" "coerce ts tn (rnd i) p = None"
      by (auto simp: image_iff)
    then have "i < length ps \<and> coerce ts tn (rnd i) (ps ! i) = None"
      by (simp add: in_set_enumerate_eq)
    then show "\<exists>i<length ps. coerce ts tn (rnd i) (ps ! i) = None" by blast
  next
    assume "\<exists>i<length ps. coerce ts tn (rnd i) (ps ! i) = None"
    then obtain i where i: "i < length ps" "coerce ts tn (rnd i) (ps ! i) = None" by blast
    then have "(i, ps ! i) \<in> set (enumerate 0 ps)" by (simp add: in_set_enumerate_eq)
    then show "None \<in> set (map (\<lambda>(i, p). coerce ts tn (rnd i) p) (enumerate 0 ps))"
      using i(2) by (force simp: image_iff)
  qed
  then show ?thesis
    by (cases "those (map (\<lambda>(i, p). coerce ts tn (rnd i) p) (enumerate 0 ps))")
      (simp_all add: fetchProductsFromApi_def)
qed

lemma coerce_nan_price:
  assumes "tn (JStr ''abc'') = Some NaN"
  shows "coerce ts tn random_id (JObj [(''id'', JStr ''a''), (''price'', JStr ''abc'')])
    = Some \<lparr>f_id = ''a'', f_title = JStr ''Untitled product'', f_description = JStr [],
            f_price = NaN, f_category = JStr ''Uncategorized'', f_image = JStr [],
            f_rating = None\<rparr>"
  using assms by (simp add: coerce_def or_value_def or_prop_def js_String_def js_Number_def)

lemma fetch_not_array:
  assumes "\<forall>ps. data \<noteq> JArr ps"
  shows "fetchProductsFromApi ts tn rnd (Fetch_response True (Body data)) = Fallback SAMPLE_PRODUCTS"
  using assms by (cases data) (simp_all add: fetchProductsFromApi_def)

text \<open>
  C8 (as stated, refuted). The coercion is not total on array responses: the callback
  reads \<^verbatim>\<open>p.id\<close> of every element, which throws for \<^verbatim>\<open>null\<close>. The response \<^verbatim>\<open>[null]\<close> is an
  array, and the fetch resolves to the fallback catalog, whatever \<^verbatim>\<open>String\<close> and \<^verbatim>\<open>Number\<close>
  do.
\<close>

theorem fetch_null_record_falls_back:
  "\<forall>to_string to_number random_ids.
     fetchProductsFromApi to_string to_number random_ids (Fetch_response True (Body (JArr [JNull])))
       = Fallback SAMPLE_PRODUCTS"
  by (simp add: fetch_array_null)

text \<open>
  C8 (amended). The fetch never throws: it resolves to a catalog in every case. A rejected
  fetch, a response that is not ok, a body that does not parse and a body that is not an
  array give the fixed fallback catalog, which has exactly 4 products. An array gives the
  fallback catalog exactly when the coercion of one of its records fails, as it does for
  a \<^verbatim>\<open>null\<close> element; an array whose records all coerce gives the coerced records. A
  coerced record has the generated identifier when \<^verbatim>\<open>id\<close>, \<^verbatim>\<open>_id\<close> and \<^verbatim>\<open>slug\<close> are missing,
  the title \<open>Untitled product\<close> when \<^verbatim>\<open>title\<close> and \<^verbatim>\<open>name\<close> are missing, the price 0 when
  \<^verbatim>\<open>price\<close> is missing, and the category \<open>Uncategorized\<close> when \<^verbatim>\<open>category\<close> is missing. The
  coercion succeeds on every record that is not \<^verbatim>\<open>null\<close> and has no identifier and no price;
  in general it fails exactly when the record is \<^verbatim>\<open>null\<close>, or \<^verbatim>\<open>String\<close> throws on the
  identifier, or \<^verbatim>\<open>Number\<close> throws on the price. A price that \<^verbatim>\<open>Number\<close> turns into \<open>NaN\<close>
  is not a failure: the record is coerced, with the price \<open>NaN\<close>.
\<close>

theorem fetch_catalog_spec:
  "fetchProductsFromApi ts tn rnd Fetch_rejected = Fallback SAMPLE_PRODUCTS
   \<and> fetchProductsFromApi ts tn rnd (Fetch_response False b) = Fallback SAMPLE_PRODUCTS
   \<and> fetchProductsFromApi ts tn rnd (Fetch_response True Body_invalid) = Fallback SAMPLE_PRODUCTS
   \<and> ((\<forall>ps. data \<noteq> JArr ps) \<longrightarrow>
        fetchProductsFromApi ts tn rnd (Fetch_response True (Body data)) = Fallback SAMPLE_PRODUCTS)
   \<and> length SAMPLE_PRODUCTS = 4
   \<and> (JNull \<in> set ps \<longrightarrow>
        fetchProductsFromApi ts tn rnd (Fetch_response True (Body (JArr ps))) = Fallback SAMPLE_PRODUCTS)
   \<and> (fetchProductsFromApi ts tn rnd (Fetch_response True (Body (JArr ps))) = Fallback SAMPLE_PRODUCTS)
       = (\<exists>i<length ps. coerce ts tn (rnd i) (ps ! i) = None)
   \<and> (list_all2 (\<lambda>(i, p) f. coerce ts tn (rnd i) p = Some f) (enumerate 0 ps) fs \<longrightarrow>
        fetchProductsFromApi ts tn rnd (Fetch_response True (Body (JArr ps))) = Coerced fs)
   \<and> (coerce ts tn random_id p = Some f \<longrightarrow>
        (nullish (get_prop p ''id'') \<and> nullish (get_prop p ''_id'') \<and> nullish (get_prop p ''slug'')
            \<longrightarrow> f_id f = random_id)
        \<and> (nullish (get_prop p ''title'') \<and> nullish (get_prop p ''name'')
            \<longrightarrow> f_title f = JStr ''Untitled product'')
        \<and> (nullish (get_prop p ''price'') \<longrightarrow> f_price f = Finite 0)
        \<and> (nullish (get_prop p ''category'') \<longrightarrow> f_category f = JStr ''Uncategorized''))
   \<and> (p \<noteq> JNull \<and> nullish (get_prop p ''id'') \<and> nullish (get_prop p ''_id'')
        \<and> nullish (get_prop p ''slug'') \<and> nullish (get_prop p ''price'') \<longrightarrow>
        (\<exists>f. coerce ts tn random_id p = Some f))
   \<and> (coerce ts tn random_id p = None) =
       (p = JNull
        \<or> js_String ts
             (or_value (or_prop (or_prop (get_prop p ''id'') (get_prop p ''_id'')) (get_prop p ''slug''))
                (JStr random_id)) = None
        \<or> js_Number tn (or_value (get_prop p ''price'') (JNum 0)) = None)"
proof (intro conjI)
  show "fetchProductsFromApi ts tn rnd Fetch_rejected = Fallback SAMPLE_PRODUCTS"
    by (simp add: fetchProductsFromApi_def)
  show "fetchProductsFromApi ts tn rnd (Fetch_response False b) = Fallback SAMPLE_PRODUCTS"
    by (simp add: fetchProductsFromApi_def)
  show "fetchProductsFromApi ts tn rnd (Fetch_response True Body_invalid) = Fallback SAMPLE_PRODUCTS"
    by (simp add: fetchProductsFromApi_def)
  show "(\<forall>ps. data \<noteq> JArr ps) \<longrightarrow>
        fetchProductsFromApi ts tn rnd (Fetch_response True (Body data)) = Fallback SAMPLE_PRODUCTS"
    by (simp add: fetch_not_array)
  show "length SAMPLE_PRODUCTS = 4"
    by (simp add: SAMPLE_PRODUCTS_def)
  show "JNull \<in> set ps \<longrightarrow>
        fetchProductsFromApi ts tn rnd (Fetch_response True (Body (JArr ps))) = Fallback SAMPLE_PRODUCTS"
    by (simp add: fetch_array_null)
  show "(fetchProductsFromApi ts tn rnd (Fetch_response True (Body (JArr ps))) = Fallback SAMPLE_PRODUCTS)
       = (\<exists>i<length ps. coerce ts tn (rnd i) (ps ! i) = None)"
    by (rule fetch_fallback_iff)
  show "list_all2 (\<lambda>(i, p) f. coerce ts tn (rnd i) p = Some f) (enumerate 0 ps) fs \<longrightarrow>
        fetchProductsFromApi ts tn rnd (Fetch_response True (Body (JArr ps))) = Coerced fs"
    using fetch_array_ok by blast
  show "coerce ts tn random_id p = Some f \<longrightarrow>
        (nullish (get_prop p ''id'') \<and> nullish (get_prop p ''_id'') \<and> nullish (get_prop p ''slug'')
            \<longrightarrow> f_id f = random_id)
        \<and> (nullish (get_prop p ''title'') \<and> nullish (get_prop p ''name'')
            \<longrightarrow> f_title f = JStr ''Untitled product'')
        \<and> (nullish (get_prop p ''price'') \<longrightarrow> f_price f = Finite 0)
        \<and> (nullish (get_prop p ''category'') \<longrightarrow> f_category f = JStr ''Uncategorized'')"
    using coerce_defaults by blast
  show "p \<noteq> JNull \<and> nullish (get_prop p ''id'') \<and> nullish (get_prop p ''_id'')
        \<and> nullish (get_prop p ''slug'') \<and> nullish (get_prop p ''price'') \<longrightarrow>
        (\<exists>f. coerce ts tn random_id p = Some f)"
    using coerce_total by blast
  show "(coerce ts tn random_id p = None) =
       (p = JNull
        \<or> js_String ts
             (or_value (or_prop (or_prop (get_prop p ''id'') (get_prop p ''_id'')) (get_prop p ''slug''))
                (JStr random_id)) = None
        \<or> js_Number tn (or_value (get_prop p ''price'') (JNum 0)) = None)"
    by (rule coerce_fails_iff)
qed

text \<open>
  A body that is an object, an array with a \<^verbatim>\<open>null\<close> element, and an array of an object
  and a number, for every \<^verbatim>\<open>String\<close> and \<^verbatim>\<open>Number\<close>.
\<close>

theorem fetch_catalog_spec_witness:
  "\<forall>ts tn.
     fetchProductsFromApi ts tn (\<lambda>i. ''k3j9x'')
         (Fetch_response True (Body (JObj [(''error'', JStr ''down'')]))) = Fallback SAMPLE_PRODUCTS
     \<and> fetchProductsFromApi ts tn (\<lambda>i. ''k3j9x'')
         (Fetch_response True (Body (JArr [JObj [(''name'', JStr ''Lamp'')], JNull])))
         = Fallback SAMPLE_PRODUCTS
     \<and> fetchProductsFromApi ts tn (\<lambda>i. ''k3j9x'')
         (Fetch_response True (Body (JArr [JObj [(''name'', JStr ''Lamp'')], JNum 7])))
         = Coerced [\<lparr>f_id = ''k3j9x'', f_title = JStr ''Lamp'', f_description = JStr [], f_price = Finite 0,
                      f_category = JStr ''Uncategorized'', f_image = JStr [], f_rating = None\<rparr>,
                    \<lparr>f_id = ''k3j9x'', f_title = JStr ''Untitled product'', f_description = JStr [],
                      f_price = Finite 0, f_category = JStr ''Uncategorized'', f_image = JStr [],
                      f_rating = None\<rparr>]
     \<and> (\<exists>f. coerce ts tn ''k3j9x'' (JObj [(''name'', JStr ''Lamp'')]) = Some f)"
proof (intro allI conjI)
  fix ts :: "json \<Rightarrow> string option" and tn :: "json \<Rightarrow> number option"
  let ?lamp = "JObj [(''name'', JStr ''Lamp'')]"
  let ?f1 = "\<lparr>f_id = ''k3j9x'', f_title = JStr ''Lamp'', f_description = JStr [], f_price = Finite 0,
               f_category = JStr ''Uncategorized'', f_image = JStr [], f_rating = None\<rparr>"
  let ?f2 = "\<lparr>f_id = ''k3j9x'', f_title = JStr ''Untitled product'', f_description = JStr [],
               f_price = Finite 0, f_category = JStr ''Uncategorized'', f_image = JStr [],
               f_rating = None\<rparr>"
  note spec = fetch_catalog_spec [of ts tn "\<lambda>i. ''k3j9x''" _ "JObj [(''error'', JStr ''down'')]"]
  show "fetchProductsFromApi ts tn (\<lambda>i. ''k3j9x'')
         (Fetch_response True (Body (JObj [(''error'', JStr ''down'')]))) = Fallback SAMPLE_PRODUCTS"
    using spec by simp
  show "fetchProductsFromApi ts tn (\<lambda>i. ''k3j9x'')
         (Fetch_response True (Body (JArr [?lamp, JNull]))) = Fallback SAMPLE_PRODUCTS"
    using fetch_catalog_spec [of ts tn "\<lambda>i. ''k3j9x''" _ _ "[?lamp, JNull]"] by simp
  have c1: "coerce ts tn ''k3j9x'' ?lamp = Some ?f1"
    by (simp add: coerce_def or_value_def or_prop_def js_String_def js_Number_def)
  have c2: "coerce ts tn ''k3j9x'' (JNum 7) = Some ?f2"
    by (simp add: coerce_def or_value_def or_prop_def js_String_def js_Number_def)
  have "list_all2 (\<lambda>(i, p) f. coerce ts tn ((\<lambda>i. ''k3j9x'') i) p = Some f)
          (enumerate 0 [?lamp, JNum 7]) [?f1, ?f2]"
    using c1 c2 by simp
  then show "fetchProductsFromApi ts tn (\<lambda>i. ''k3j9x'')
         (Fetch_response True (Body (JArr [?lamp, JNum 7]))) = Coerced [?f1, ?f2]"
    using fetch_catalog_spec [of ts tn "\<lambda>i. ''k3j9x''" _ _ "[?lamp, JNum 7]" "[?f1, ?f2]"]
    by blast
  show "\<exists>f. coerce ts tn ''k3j9x'' ?lamp = Some f"
    using fetch_catalog_spec [of ts tn _ _ _ _ _ "''k3j9x''" ?lamp] by simp
qed

end
